theory Spec2Isabelle
  imports Complex_Main "HOL-Library.AList" "HOL-Library.Multiset"
    "HOL-Library.Char_ord" "HOL-Library.List_Lexorder"
begin

section \<open>Numbers of the dashboard script\<close>

text \<open>
  The script \<^verbatim>\<open>Untitled-1.py\<close> computes with pandas/numpy float64 cells. The model
  reads a finite float as the rational it denotes and computes exactly on it (no
  rounding, no overflow, no signed zero). What float arithmetic adds to the rationals and
  the script can produce is kept: \<open>NaN\<close> (a missing cell, or \<open>0/0\<close>) and the two
  infinities (a nonzero value divided by zero; numpy warns and goes on, it does not
  raise).
\<close>

type_synonym ticker = string

datatype fl = Fin rat | PInf | NInf | NaN

text \<open>numpy's \<^verbatim>\<open>a / b\<close> on two finite cells.\<close>

definition fdiv :: "rat \<Rightarrow> rat \<Rightarrow> fl" where
  "fdiv a b =
     (if b \<noteq> 0 then Fin (a / b)
      else if 0 < a then PInf
      else if a < 0 then NInf
      else NaN)"

text \<open>\<^verbatim>\<open>x - t\<close> for a cell \<open>x\<close> and a finite \<open>t\<close>; \<^verbatim>\<open>abs(x)\<close>; Python's \<^verbatim>\<open>x < y\<close>
  (false as soon as one side is NaN).\<close>

fun fsub :: "fl \<Rightarrow> rat \<Rightarrow> fl" where
  "fsub (Fin a) t = Fin (a - t)"
| "fsub PInf t = PInf"
| "fsub NInf t = NInf"
| "fsub NaN t = NaN"

fun fabs :: "fl \<Rightarrow> fl" where
  "fabs (Fin a) = Fin \<bar>a\<bar>"
| "fabs PInf = PInf"
| "fabs NInf = PInf"
| "fabs NaN = NaN"

fun flt :: "fl \<Rightarrow> fl \<Rightarrow> bool" where
  "flt (Fin a) (Fin b) = (a < b)"
| "flt NaN y = False"
| "flt x NaN = False"
| "flt x NInf = False"
| "flt PInf y = False"
| "flt NInf y = True"
| "flt x PInf = True"

text \<open>\<^verbatim>\<open>.fillna(0)\<close> on one cell: only NaN is replaced, an infinity stays.\<close>

fun fillna :: "rat option \<Rightarrow> rat" where
  "fillna None = 0"
| "fillna (Some x) = x"

fun fillna_fl :: "fl \<Rightarrow> fl" where
  "fillna_fl NaN = Fin 0"
| "fillna_fl x = x"

text \<open>\<^verbatim>\<open>Series.sum()\<close> of a column of finite-or-missing cells: NaN is skipped
  (\<^verbatim>\<open>skipna=True\<close> is the default), the empty sum is 0.\<close>

definition series_sum :: "rat option list \<Rightarrow> rat" where
  "series_sum col = sum_list (map fillna col)"

datatype py_error = IndexError | KeyError | ZeroDivisionError

section \<open>Holdings from the sidebar form (lines 42-49)\<close>

text \<open>
  \<open>top20\<close> is the index of \<^verbatim>\<open>nasdaq_df.head(20)\<close>, \<open>slider t\<close> the integer the
  slider of ticker \<open>t\<close> returns. The loop stores a ticker only when its share count is
  positive; a dict assignment keeps the position of a key that is already there.
\<close>

definition portfolio :: "ticker list \<Rightarrow> (ticker \<Rightarrow> int) \<Rightarrow> (ticker \<times> int) list" where
  "portfolio top20 slider =
     fold (\<lambda>t pf. let shares = slider t in
                   if shares > 0 then AList.update t shares pf else pf) top20 []"

section \<open>The frame \<open>df\<close> (lines 62-64)\<close>

text \<open>
  \<open>prices\<close> is the series of latest closes, as the association list of its index and
  values (a ticker with no quote is absent). \<^verbatim>\<open>pd.DataFrame({'Shares': ..., 'Price': ...})\<close>
  aligns the two series on the union of their indices and leaves NaN (\<open>None\<close>) where a
  series has no entry. The order of the rows of \<open>df\<close> is never observed: every later
  access is by label, by sum, or goes through \<^verbatim>\<open>sort_values\<close>.
\<close>

record df_row =
  idx :: ticker
  Shares :: "int option"
  Price :: "rat option"
  Value :: "rat option"
  Weight_pct :: fl

definition union_index :: "ticker list \<Rightarrow> ticker list \<Rightarrow> ticker list" where
  "union_index a b = remdups (a @ b)"

text \<open>\<^verbatim>\<open>df['Shares'] * df['Price']\<close>: NaN when either cell is.\<close>

fun mul_cells :: "int option \<Rightarrow> rat option \<Rightarrow> rat option" where
  "mul_cells (Some n) (Some p) = Some (of_int n * p)"
| "mul_cells _ _ = None"

definition df :: "(ticker \<times> int) list \<Rightarrow> (ticker \<times> rat) list \<Rightarrow> df_row list" where
  "df pf prices =
     (let index = union_index (map fst pf) (map fst prices);
          value = (\<lambda>k. mul_cells (map_of pf k) (map_of prices k));
          s = series_sum (map value index)
      in map (\<lambda>k. \<lparr>idx = k, Shares = map_of pf k, Price = map_of prices k,
                      Value = value k,
                      Weight_pct = (case value k of None \<Rightarrow> NaN
                                    | Some v \<Rightarrow> fdiv (100 * v) s)\<rparr>) index)"

text \<open>\<^verbatim>\<open>total_usd = df['Value'].sum()\<close> (lines 72 and 107).\<close>

definition total_usd :: "df_row list \<Rightarrow> rat" where
  "total_usd d = series_sum (map Value d)"

text \<open>\<^verbatim>\<open>k in df.index\<close> and \<^verbatim>\<open>df.loc[k]\<close>.\<close>

definition loc :: "df_row list \<Rightarrow> ticker \<Rightarrow> df_row option" where
  "loc d k = find (\<lambda>r. idx r = k) d"

section \<open>The frame \<open>comparison\<close> (lines 67-69)\<close>

text \<open>
  Lines 62-69 are what the specification calls \<open>computeComparison\<close>.
  \<open>nasdaq\<close> is \<^verbatim>\<open>nasdaq_df[['Nasdaq100 Weight (%)']]\<close> as the list of its (ticker, weight)
  rows. The outer merge on the two indices has one row for every pair of equal labels,
  and one row (NaN on the other side) for a label only one frame has; the index of
  \<open>df\<close> has no repeated label, so a label gives as many rows as \<open>nasdaq\<close> has it, or one.
  \<^verbatim>\<open>.fillna(0)\<close> then replaces every NaN cell, and line 68 subtracts the two weight
  columns; a row is built here with its three steps at once.
\<close>

record cmp_row =
  c_idx :: ticker
  c_Shares :: rat
  c_Price :: rat
  c_Value :: rat
  c_Weight_pct :: fl
  c_Nasdaq100_Weight :: rat
  c_Difference :: fl

definition merged_row :: "df_row option \<Rightarrow> ticker \<Rightarrow> rat option \<Rightarrow> cmp_row" where
  "merged_row l k w =
     (let weight = fillna_fl (case l of None \<Rightarrow> NaN | Some r \<Rightarrow> Weight_pct r);
          nasdaq_weight = fillna w
      in \<lparr>c_idx = k,
          c_Shares = fillna (map_option of_int (Option.bind l Shares)),
          c_Price = fillna (Option.bind l Price),
          c_Value = fillna (Option.bind l Value),
          c_Weight_pct = weight,
          c_Nasdaq100_Weight = nasdaq_weight,
          c_Difference = fsub weight nasdaq_weight\<rparr>)"

definition nasdaq_cells :: "(ticker \<times> rat) list \<Rightarrow> ticker \<Rightarrow> rat option list" where
  "nasdaq_cells nasdaq k =
     (case filter (\<lambda>tw. fst tw = k) nasdaq of
        [] \<Rightarrow> [None]
      | ws \<Rightarrow> map (\<lambda>tw. Some (snd tw)) ws)"

definition merge_outer_fillna :: "df_row list \<Rightarrow> (ticker \<times> rat) list \<Rightarrow> cmp_row list" where
  "merge_outer_fillna d nasdaq =
     concat (map (\<lambda>k. map (merged_row (loc d k) k) (nasdaq_cells nasdaq k))
                 (union_index (map idx d) (map fst nasdaq)))"

text \<open>
  \<^verbatim>\<open>sort_values('Nasdaq100 Weight (%)', ascending=False)\<close> has one key and pandas'
  default sorting kind (\<^verbatim>\<open>quicksort\<close>), which pandas documents as not stable: the result
  is the same rows, in descending order of the key, and the call fixes nothing about rows
  of equal key. The model therefore is a relation between the frame and a possible
  result, and what is proved of \<open>comparison\<close> holds for every result.
\<close>

definition sort_values_desc :: "cmp_row list \<Rightarrow> cmp_row list \<Rightarrow> bool" where
  "sort_values_desc rows out \<longleftrightarrow>
     mset out = mset rows \<and>
     sorted_wrt (\<lambda>a b. c_Nasdaq100_Weight a \<ge> c_Nasdaq100_Weight b) out"

definition comparison :: "df_row list \<Rightarrow> (ticker \<times> rat) list \<Rightarrow> cmp_row list \<Rightarrow> bool" where
  "comparison d nasdaq out \<longleftrightarrow>
     sort_values_desc (merge_outer_fillna d nasdaq) out"

section \<open>The suggested purchase (lines 106-122)\<close>

text \<open>Lines 106-122 are what the specification calls \<open>recommendPurchase\<close>; the
  purchase amount is a constant of the script.\<close>

definition purchase_amount :: rat where
  "purchase_amount = 1250"

definition suggestions :: "cmp_row list \<Rightarrow> rat \<Rightarrow> rat \<Rightarrow> (ticker \<times> fl \<times> rat) list" where
  "suggestions rows usd amount =
     map (\<lambda>row.
            let current_value = c_Value row;
                target_weight = c_Nasdaq100_Weight row;
                new_value = current_value + amount;
                new_total = usd + amount;
                new_weight = fdiv (100 * new_value) new_total;
                new_diff = fabs (fsub new_weight target_weight)
            in (c_idx row, new_diff, target_weight)) rows"

text \<open>
  \<^verbatim>\<open>suggestions.sort(key=lambda x: x[1])\<close>: Python's sort is stable and compares keys
  with \<open><\<close> only. On keys without NaN every stable sort gives this result.
\<close>

fun insort_gap :: "ticker \<times> fl \<times> rat \<Rightarrow> (ticker \<times> fl \<times> rat) list \<Rightarrow> (ticker \<times> fl \<times> rat) list" where
  "insort_gap x [] = [x]"
| "insort_gap x (y # ys) =
     (if flt (fst (snd y)) (fst (snd x)) then y # insort_gap x ys else x # y # ys)"

definition sort_by_gap :: "(ticker \<times> fl \<times> rat) list \<Rightarrow> (ticker \<times> fl \<times> rat) list" where
  "sort_by_gap xs = foldr insort_gap xs []"

text \<open>
  Line 121: the price of the chosen ticker is read from \<open>df\<close> when the ticker is in its
  index (a NaN cell is read as it is), and fetched from the market-data service otherwise;
  \<open>info t\<close> is what \<^verbatim>\<open>yf.Ticker(t).info\<close> holds under \<^verbatim>\<open>'regularMarketPrice'\<close>, \<open>None\<close>
  when the key is not there. Line 122 divides: by a numpy cell in the first case, by a
  Python number in the second, where a zero divisor raises.
\<close>

definition shares_to_buy ::
  "df_row list \<Rightarrow> (ticker \<Rightarrow> rat option) \<Rightarrow> ticker \<Rightarrow> rat \<Rightarrow> py_error + fl" where
  "shares_to_buy d info best_ticker amount =
     (case loc d best_ticker of
        Some r \<Rightarrow> (case Price r of None \<Rightarrow> Inr NaN | Some price \<Rightarrow> Inr (fdiv amount price))
      | None \<Rightarrow>
          (case info best_ticker of
             None \<Rightarrow> Inl KeyError
           | Some price \<Rightarrow>
               if price = 0 then Inl ZeroDivisionError else Inr (Fin (amount / price))))"

text \<open>Lines 119-120: \<^verbatim>\<open>suggestions[0]\<close> after the sort; on the empty list Python raises
  \<^verbatim>\<open>IndexError\<close>.\<close>

definition best_suggestion :: "(ticker \<times> fl \<times> rat) list \<Rightarrow> py_error + (ticker \<times> fl \<times> rat)" where
  "best_suggestion sugg =
     (case sort_by_gap sugg of [] \<Rightarrow> Inl IndexError | best # _ \<Rightarrow> Inr best)"

text \<open>Lines 107-122 together: the ticker, the share count, the projected gap and the
  target weight that the panel shows, or the exception that ends the run.\<close>

definition recommend ::
  "df_row list \<Rightarrow> (ticker \<Rightarrow> rat option) \<Rightarrow> cmp_row list \<Rightarrow> rat \<Rightarrow>
     py_error + (ticker \<times> fl \<times> fl \<times> rat)" where
  "recommend d info rows amount =
     (case best_suggestion (suggestions rows (total_usd d) amount) of
        Inl e \<Rightarrow> Inl e
      | Inr (best_ticker, projected_gap, target_weight) \<Rightarrow>
          (case shares_to_buy d info best_ticker amount of
             Inl e \<Rightarrow> Inl e
           | Inr n \<Rightarrow> Inr (best_ticker, n, projected_gap, target_weight)))"

section \<open>Facts about the frames\<close>

lemma find_map_key:
  assumes "\<And>k'. key (f k') = k'"
  shows "find (\<lambda>r. key r = k) (map f ks) = (if k \<in> set ks then Some (f k) else None)"
  using assms by (induction ks) auto

lemma df_index: "map idx (df pf prices) = union_index (map fst pf) (map fst prices)"
  by (simp add: df_def Let_def comp_def)

lemma set_union_index: "set (union_index a b) = set a \<union> set b"
  by (simp add: union_index_def)

lemma distinct_union_index: "distinct (union_index a b)"
  by (simp add: union_index_def)

lemma total_usd_df:
  "total_usd (df pf prices) =
     series_sum (map (\<lambda>k. mul_cells (map_of pf k) (map_of prices k))
                     (union_index (map fst pf) (map fst prices)))"
  by (simp add: total_usd_def df_def Let_def comp_def)

lemma df_rows:
  "df pf prices =
     map (\<lambda>k. \<lparr>idx = k, Shares = map_of pf k, Price = map_of prices k,
                 Value = mul_cells (map_of pf k) (map_of prices k),
                 Weight_pct = (case mul_cells (map_of pf k) (map_of prices k) of
                                 None \<Rightarrow> NaN
                               | Some v \<Rightarrow> fdiv (100 * v) (total_usd (df pf prices)))\<rparr>)
         (union_index (map fst pf) (map fst prices))"
  unfolding total_usd_df by (simp add: df_def Let_def)

lemma loc_df:
  "loc (df pf prices) k =
     (if k \<in> fst ` set pf \<union> fst ` set prices
      then Some \<lparr>idx = k, Shares = map_of pf k, Price = map_of prices k,
                 Value = mul_cells (map_of pf k) (map_of prices k),
                 Weight_pct = (case mul_cells (map_of pf k) (map_of prices k) of
                                 None \<Rightarrow> NaN
                               | Some v \<Rightarrow> fdiv (100 * v) (total_usd (df pf prices)))\<rparr>
      else None)"
proof -
  define T where "T = total_usd (df pf prices)"
  have rows: "df pf prices =
     map (\<lambda>k. \<lparr>idx = k, Shares = map_of pf k, Price = map_of prices k,
                 Value = mul_cells (map_of pf k) (map_of prices k),
                 Weight_pct = (case mul_cells (map_of pf k) (map_of prices k) of
                                 None \<Rightarrow> NaN | Some v \<Rightarrow> fdiv (100 * v) T)\<rparr>)
         (union_index (map fst pf) (map fst prices))"
    unfolding T_def by (rule df_rows)
  show ?thesis
    unfolding T_def[symmetric] loc_def
    by (subst rows, subst find_map_key) (simp_all add: set_union_index)
qed

lemma sum_list_nonneg_member:
  fixes xs :: "rat list"
  assumes "\<forall>x\<in>set xs. 0 \<le> x" "y \<in> set xs"
  shows "y \<le> sum_list xs"
  using assms
proof (induction xs)
  case Nil
  then show ?case by simp
next
  case (Cons x xs)
  have "0 \<le> sum_list xs" using Cons.prems(1) by (simp add: sum_list_nonneg)
  then show ?case using Cons by auto
qed

lemma total_usd_pos:
  assumes ne: "pf \<noteq> []"
    and sh: "\<forall>(k, n)\<in>set pf. 0 < n"
    and pr: "\<forall>k\<in>fst ` set pf. \<exists>p. map_of prices k = Some p \<and> 0 < p"
  shows "0 < total_usd (df pf prices)"
proof -
  let ?cell = "\<lambda>k. mul_cells (map_of pf k) (map_of prices k)"
  let ?index = "union_index (map fst pf) (map fst prices)"
  have tot: "total_usd (df pf prices) = sum_list (map (\<lambda>k. fillna (?cell k)) ?index)"
    by (simp add: total_usd_df series_sum_def comp_def)
  have held: "0 < fillna (?cell k)" if "k \<in> fst ` set pf" for k
  proof -
    from that obtain n where n: "map_of pf k = Some n"
      by (metis domIff dom_map_of_conv_image_fst not_Some_eq)
    then have "(k, n) \<in> set pf" by (rule map_of_SomeD)
    with sh have "0 < n" by auto
    moreover from pr that obtain p where "map_of prices k = Some p" "0 < p" by blast
    ultimately show ?thesis using n by simp
  qed
  have nonneg: "0 \<le> fillna (?cell k)" for k
  proof (cases "k \<in> fst ` set pf")
    case True
    then show ?thesis using held by (simp add: less_imp_le)
  next
    case False
    then have "map_of pf k = None" by (simp add: map_of_eq_None_iff)
    then show ?thesis by simp
  qed
  from ne obtain k where k: "k \<in> fst ` set pf" by (cases pf) auto
  then have "k \<in> set ?index" by (simp add: set_union_index)
  then have "fillna (?cell k) \<in> set (map (\<lambda>k. fillna (?cell k)) ?index)" by simp
  moreover have "\<forall>x\<in>set (map (\<lambda>k. fillna (?cell k)) ?index). 0 \<le> x"
    using nonneg by auto
  ultimately have "fillna (?cell k) \<le> sum_list (map (\<lambda>k. fillna (?cell k)) ?index)"
    by (rule sum_list_nonneg_member[rotated])
  with held[OF k] show ?thesis using tot by simp
qed




section \<open>Facts about the merge and the sort\<close>

lemma c_idx_merged_row [simp]: "c_idx (merged_row l k w) = k"
  by (simp add: merged_row_def Let_def)

lemma nasdaq_cells_absent:
  "k \<notin> fst ` set nasdaq \<Longrightarrow> nasdaq_cells nasdaq k = [None]"
proof -
  assume "k \<notin> fst ` set nasdaq"
  then have "filter (\<lambda>tw. fst tw = k) nasdaq = []"
    by (auto simp: filter_empty_conv)
  then show ?thesis by (simp add: nasdaq_cells_def)
qed

lemma filter_key_distinct:
  "distinct (map fst xs) \<Longrightarrow>
   filter (\<lambda>tw. fst tw = k) xs = (case map_of xs k of None \<Rightarrow> [] | Some w \<Rightarrow> [(k, w)])"
proof (induction xs)
  case Nil
  then show ?case by simp
next
  case (Cons a xs)
  show ?case
  proof (cases "fst a = k")
    case True
    with Cons.prems have "k \<notin> fst ` set xs" by auto
    then have "filter (\<lambda>tw. fst tw = k) xs = []" by (auto simp: filter_empty_conv)
    with True show ?thesis by (cases a) simp
  next
    case False
    with Cons show ?thesis by (cases a) simp
  qed
qed

lemma nasdaq_cells_distinct:
  "distinct (map fst nasdaq) \<Longrightarrow> nasdaq_cells nasdaq k = [map_of nasdaq k]"
  by (simp add: nasdaq_cells_def filter_key_distinct split: option.splits)

lemma merge_distinct:
  assumes "distinct (map fst nasdaq)"
  shows "merge_outer_fillna d nasdaq =
           map (\<lambda>k. merged_row (loc d k) k (map_of nasdaq k))
               (union_index (map idx d) (map fst nasdaq))"
proof -
  have "concat (map (\<lambda>k. [f k]) ks) = map f ks" for f :: "ticker \<Rightarrow> cmp_row" and ks
    by (induction ks) simp_all
  then show ?thesis
    by (simp add: merge_outer_fillna_def nasdaq_cells_distinct[OF assms])
qed

lemma merge_row_cases:
  assumes "r \<in> set (merge_outer_fillna d nasdaq)"
  obtains k w where "k \<in> set (map idx d) \<union> fst ` set nasdaq"
    and "w \<in> set (nasdaq_cells nasdaq k)" and "r = merged_row (loc d k) k w"
  using assms by (auto simp: merge_outer_fillna_def set_union_index)

lemma nasdaq_cells_nonempty: "nasdaq_cells nasdaq k \<noteq> []"
  by (simp add: nasdaq_cells_def split: list.splits)

lemma merge_has_row:
  assumes "k \<in> set (map idx d) \<union> fst ` set nasdaq"
  shows "\<exists>r\<in>set (merge_outer_fillna d nasdaq). c_idx r = k"
proof -
  obtain w where "w \<in> set (nasdaq_cells nasdaq k)"
    using nasdaq_cells_nonempty[of nasdaq k] by (cases "nasdaq_cells nasdaq k") auto
  then have "merged_row (loc d k) k w \<in> set (merge_outer_fillna d nasdaq)"
    using assms by (auto simp: merge_outer_fillna_def set_union_index)
  then show ?thesis by (intro bexI[of _ "merged_row (loc d k) k w"]) simp_all
qed

lemma comparison_set:
  "comparison d nasdaq out \<Longrightarrow> set out = set (merge_outer_fillna d nasdaq)"
  by (auto simp: comparison_def sort_values_desc_def dest: mset_eq_setD)

lemma comparison_exists:
  "comparison d nasdaq (rev (sort_key c_Nasdaq100_Weight (merge_outer_fillna d nasdaq)))"
proof -
  let ?xs = "sort_key c_Nasdaq100_Weight (merge_outer_fillna d nasdaq)"
  have "sorted (map c_Nasdaq100_Weight ?xs)" by (rule sorted_sort_key)
  then have "sorted_wrt (\<lambda>a b. c_Nasdaq100_Weight a \<le> c_Nasdaq100_Weight b) ?xs"
    by (simp add: sorted_map)
  then have "sorted_wrt (\<lambda>a b. c_Nasdaq100_Weight a \<ge> c_Nasdaq100_Weight b) (rev ?xs)"
    by (simp add: sorted_wrt_rev)
  then show ?thesis by (simp add: comparison_def sort_values_desc_def)
qed

text \<open>What a row of \<open>comparison\<close> holds for a ticker whose value cell in \<open>df\<close> is
  missing, or that \<open>df\<close> does not have.\<close>

lemma merged_row_no_value:
  assumes "l = None \<or> (\<exists>r. l = Some r \<and> Value r = None \<and> Weight_pct r = NaN)"
  shows "c_Value (merged_row l k w) = 0 \<and> c_Weight_pct (merged_row l k w) = Fin 0"
  using assms by (auto simp: merged_row_def Let_def)

lemma loc_df_not_held:
  assumes "k \<notin> fst ` set pf"
  shows "loc (df pf prices) k = None \<or>
         (\<exists>r. loc (df pf prices) k = Some r \<and> Value r = None \<and> Weight_pct r = NaN)"
proof -
  from assms have "map_of pf k = None" by (simp add: map_of_eq_None_iff)
  then show ?thesis by (simp add: loc_df)
qed

lemma mul_cells_no_price [simp]: "mul_cells c None = None"
  by (cases c) simp_all

lemma loc_df_no_price:
  assumes "map_of pf k = Some n" "map_of prices k = None"
  shows "\<exists>r. loc (df pf prices) k = Some r \<and> Shares r = Some n \<and> Price r = None \<and>
             Value r = None \<and> Weight_pct r = NaN"
proof -
  from assms(1) have "k \<in> fst ` set pf"
    by (metis map_of_eq_None_iff option.distinct(1))
  then show ?thesis using assms by (simp add: loc_df)
qed

section \<open>Facts about the sort of the suggestions\<close>






lemma mset_two_cases:
  assumes "mset xs = mset [a, b]"
  shows "xs = [a, b] \<or> xs = [b, a]"
proof -
  from assms have "length xs = length [a, b]" by (rule mset_eq_length)
  then obtain x y where xs: "xs = [x, y]"
    by (cases xs; cases "tl xs") auto
  from assms have "add_mset x {#y#} = add_mset a {#b#}" by (simp add: xs)
  then have "x = a \<and> y = b \<or> x = b \<and> y = a"
    unfolding add_eq_conv_ex by auto
  with xs show ?thesis by auto
qed



section \<open>Facts about the weights\<close>






section \<open>Facts about the form loop\<close>

lemma portfolio_fold_map_of:
  "map_of (fold (\<lambda>t pf. let shares = slider t in
                          if shares > 0 then AList.update t shares pf else pf) ts pf) t =
     (if t \<in> set ts \<and> 0 < slider t then Some (slider t) else map_of pf t)"
  by (induction ts arbitrary: pf) (auto simp: Let_def update_conv')

lemma portfolio_fold_distinct:
  "distinct (map fst pf) \<Longrightarrow>
   distinct (map fst (fold (\<lambda>t pf. let shares = slider t in
                          if shares > 0 then AList.update t shares pf else pf) ts pf))"
  by (induction ts arbitrary: pf) (auto simp: Let_def distinct_update)

lemma map_of_portfolio:
  "map_of (portfolio top20 slider) t =
     (if t \<in> set top20 \<and> 0 < slider t then Some (slider t) else None)"
  by (simp add: portfolio_def portfolio_fold_map_of)

lemma distinct_portfolio: "distinct (map fst (portfolio top20 slider))"
  unfolding portfolio_def by (rule portfolio_fold_distinct) simp

lemma portfolio_entry:
  "(t, s) \<in> set (portfolio top20 slider) \<longleftrightarrow> t \<in> set top20 \<and> 0 < slider t \<and> s = slider t"
proof -
  have "(t, s) \<in> set (portfolio top20 slider) \<longleftrightarrow> map_of (portfolio top20 slider) t = Some s"
    using distinct_portfolio by (metis map_of_SomeD map_of_is_SomeI)
  then show ?thesis by (auto simp: map_of_portfolio)
qed

section \<open>Claims about the form loop\<close>

text \<open>
  C10. The mapping \<open>portfolio\<close> that the form hands on holds exactly the tickers of
  \<open>top20\<close> whose slider is above zero, each once and with the slider's value, so every
  held ticker has at least one share; a form with every slider at zero gives the empty
  mapping; and a non-empty mapping whose tickers all have a positive price has a positive
  total value.
\<close>

theorem portfolio_positive_shares:
  "fst ` set (portfolio top20 slider) = {t \<in> set top20. 0 < slider t} \<and>
   distinct (map fst (portfolio top20 slider)) \<and>
   (\<forall>(t, s)\<in>set (portfolio top20 slider). s = slider t \<and> 1 \<le> s) \<and>
   ((\<forall>t\<in>set top20. slider t = 0) \<longrightarrow> portfolio top20 slider = []) \<and>
   (portfolio top20 slider \<noteq> [] \<and>
    (\<forall>t\<in>fst ` set (portfolio top20 slider). \<exists>p. map_of prices t = Some p \<and> 0 < p)
      \<longrightarrow> 0 < total_usd (df (portfolio top20 slider) prices))"
proof (intro conjI)
  have "fst ` set (portfolio top20 slider) = dom (map_of (portfolio top20 slider))"
    by (simp add: dom_map_of_conv_image_fst)
  then show keys: "fst ` set (portfolio top20 slider) = {t \<in> set top20. 0 < slider t}"
    by (auto simp: dom_def map_of_portfolio split: if_splits)
  show "distinct (map fst (portfolio top20 slider))"
    by (rule distinct_portfolio)
  show "\<forall>(t, s)\<in>set (portfolio top20 slider). s = slider t \<and> 1 \<le> s"
    by (auto simp: portfolio_entry)
  show "(\<forall>t\<in>set top20. slider t = 0) \<longrightarrow> portfolio top20 slider = []"
  proof
    assume "\<forall>t\<in>set top20. slider t = 0"
    then have "fst ` set (portfolio top20 slider) = {}" unfolding keys by auto
    then show "portfolio top20 slider = []" by simp
  qed
  show "portfolio top20 slider \<noteq> [] \<and>
    (\<forall>t\<in>fst ` set (portfolio top20 slider). \<exists>p. map_of prices t = Some p \<and> 0 < p)
      \<longrightarrow> 0 < total_usd (df (portfolio top20 slider) prices)"
  proof
    assume a: "portfolio top20 slider \<noteq> [] \<and>
      (\<forall>t\<in>fst ` set (portfolio top20 slider). \<exists>p. map_of prices t = Some p \<and> 0 < p)"
    have "\<forall>(k, n)\<in>set (portfolio top20 slider). 0 < n"
      by (auto simp: portfolio_entry)
    with a show "0 < total_usd (df (portfolio top20 slider) prices)"
      by (intro total_usd_pos) auto
  qed
qed

theorem portfolio_positive_shares_witness:
  "portfolio [''AAPL'', ''MSFT'', ''NVDA''] (\<lambda>t. if t = ''MSFT'' then 0 else 11)
     = [(''AAPL'', 11), (''NVDA'', 11)] \<and>
   fst ` set (portfolio [''AAPL'', ''MSFT'', ''NVDA''] (\<lambda>t. if t = ''MSFT'' then 0 else 11))
     = {''AAPL'', ''NVDA''} \<and>
   portfolio [''AAPL'', ''MSFT''] (\<lambda>t. 0) = [] \<and>
   0 < total_usd (df (portfolio [''AAPL'', ''MSFT'', ''NVDA''] (\<lambda>t. if t = ''MSFT'' then 0 else 11))
                     [(''AAPL'', 100), (''NVDA'', 200)])"
proof -
  let ?pf = "portfolio [''AAPL'', ''MSFT'', ''NVDA''] (\<lambda>t. if t = ''MSFT'' then 0 else 11)"
  have e: "?pf = [(''AAPL'', 11), (''NVDA'', 11)]"
    by (simp add: portfolio_def)
  have z: "\<forall>t\<in>set [''AAPL'', ''MSFT'']. (\<lambda>t. 0::int) t = 0" by simp
  note th = portfolio_positive_shares
    [of "[''AAPL'', ''MSFT'', ''NVDA'']" "\<lambda>t. if t = ''MSFT'' then 0 else 11"
        "[(''AAPL'', 100), (''NVDA'', 200)]"]
  note th0 = portfolio_positive_shares [of "[''AAPL'', ''MSFT'']" "\<lambda>t. 0" "[]"]
  have k: "fst ` set ?pf = {''AAPL'', ''NVDA''}" using th by auto
  have pr: "\<forall>t\<in>fst ` set ?pf. \<exists>p. map_of [(''AAPL'', 100::rat), (''NVDA'', 200)] t = Some p \<and> 0 < p"
    unfolding e by simp
  have ne: "?pf \<noteq> []" unfolding e by simp
  have "0 < total_usd (df ?pf [(''AAPL'', 100), (''NVDA'', 200)])"
    using th ne pr by blast
  moreover have "portfolio [''AAPL'', ''MSFT''] (\<lambda>t. 0) = []"
    using th0 z by blast
  ultimately show ?thesis using e k by simp
qed

section \<open>Claims about the comparison frame\<close>

text \<open>
  C4. When the target table lists every ticker once and the price series has no ticker
  beyond the held and the listed ones, the comparison frame has exactly one row for each
  ticker of the union of targets and holdings: the row labels are pairwise distinct and
  are that union. A row whose ticker is not held has actual weight 0, and a row whose
  ticker is not in the target table has target weight 0.
\<close>

theorem comparison_union_complete:
  assumes nd: "distinct (map fst nasdaq)"
    and pk: "fst ` set prices \<subseteq> fst ` set pf \<union> fst ` set nasdaq"
    and cmp: "comparison (df pf prices) nasdaq out"
  shows "distinct (map c_idx out) \<and>
         set (map c_idx out) = fst ` set nasdaq \<union> fst ` set pf \<and>
         (\<forall>r\<in>set out. c_idx r \<notin> fst ` set pf \<longrightarrow> c_Weight_pct r = Fin 0) \<and>
         (\<forall>r\<in>set out. c_idx r \<notin> fst ` set nasdaq \<longrightarrow> c_Nasdaq100_Weight r = 0)"
proof (intro conjI ballI impI)
  let ?d = "df pf prices"
  let ?m = "merge_outer_fillna ?d nasdaq"
  have labels: "map c_idx ?m = union_index (map idx ?d) (map fst nasdaq)"
    by (simp add: merge_distinct[OF nd] comp_def)
  from cmp have "mset out = mset ?m"
    by (simp add: comparison_def sort_values_desc_def)
  then have ms: "mset (map c_idx out) = mset (map c_idx ?m)" by simp
  have "distinct (map c_idx ?m)" unfolding labels by (rule distinct_union_index)
  with ms show "distinct (map c_idx out)"
    by (metis mset_eq_imp_distinct_iff)
  have "set (map c_idx out) = set (map c_idx ?m)" using ms by (rule mset_eq_setD)
  also have "\<dots> = (fst ` set pf \<union> fst ` set prices) \<union> fst ` set nasdaq"
    unfolding labels by (simp add: set_union_index df_index)
  also have "\<dots> = fst ` set nasdaq \<union> fst ` set pf" using pk by auto
  finally show "set (map c_idx out) = fst ` set nasdaq \<union> fst ` set pf" .
next
  fix r assume r: "r \<in> set out" and nh: "c_idx r \<notin> fst ` set pf"
  from r cmp have "r \<in> set (merge_outer_fillna (df pf prices) nasdaq)"
    by (simp add: comparison_set)
  then obtain k w where rk: "r = merged_row (loc (df pf prices) k) k w"
    by (rule merge_row_cases)
  then have "c_idx r = k" by simp
  with nh have "k \<notin> fst ` set pf" by simp
  from loc_df_not_held[OF this, of prices] show "c_Weight_pct r = Fin 0"
    unfolding rk by (intro conjunct2[OF merged_row_no_value])
next
  fix r assume r: "r \<in> set out" and nt: "c_idx r \<notin> fst ` set nasdaq"
  from r cmp have "r \<in> set (merge_outer_fillna (df pf prices) nasdaq)"
    by (simp add: comparison_set)
  then obtain k w where w: "w \<in> set (nasdaq_cells nasdaq k)"
    and rk: "r = merged_row (loc (df pf prices) k) k w"
    by (rule merge_row_cases)
  then have "c_idx r = k" by simp
  with nt w have "w = None" by (simp add: nasdaq_cells_absent)
  then show "c_Nasdaq100_Weight r = 0" unfolding rk by (simp add: merged_row_def Let_def)
qed

theorem comparison_union_complete_witness:
  "distinct (map fst [(''AAPL'', 40::rat), (''MSFT'', 60)]) \<and>
   fst ` set [(''NVDA'', 50::rat)] \<subseteq>
     fst ` set [(''NVDA'', 3::int)] \<union> fst ` set [(''AAPL'', 40::rat), (''MSFT'', 60)] \<and>
   comparison (df [(''NVDA'', 3)] [(''NVDA'', 50)]) [(''AAPL'', 40), (''MSFT'', 60)]
     [\<lparr>c_idx = ''MSFT'', c_Shares = 0, c_Price = 0, c_Value = 0, c_Weight_pct = Fin 0,
        c_Nasdaq100_Weight = 60, c_Difference = Fin (- 60)\<rparr>,
      \<lparr>c_idx = ''AAPL'', c_Shares = 0, c_Price = 0, c_Value = 0, c_Weight_pct = Fin 0,
        c_Nasdaq100_Weight = 40, c_Difference = Fin (- 40)\<rparr>,
      \<lparr>c_idx = ''NVDA'', c_Shares = 3, c_Price = 50, c_Value = 150, c_Weight_pct = Fin 100,
        c_Nasdaq100_Weight = 0, c_Difference = Fin 100\<rparr>] \<and>
   set (map c_idx
     [\<lparr>c_idx = ''MSFT'', c_Shares = 0, c_Price = 0, c_Value = 0, c_Weight_pct = Fin 0,
        c_Nasdaq100_Weight = 60, c_Difference = Fin (- 60)\<rparr>,
      \<lparr>c_idx = ''AAPL'', c_Shares = 0, c_Price = 0, c_Value = 0, c_Weight_pct = Fin 0,
        c_Nasdaq100_Weight = 40, c_Difference = Fin (- 40)\<rparr>,
      \<lparr>c_idx = ''NVDA'', c_Shares = 3, c_Price = 50, c_Value = 150, c_Weight_pct = Fin 100,
        c_Nasdaq100_Weight = 0, c_Difference = Fin 100\<rparr>])
     = fst ` set [(''AAPL'', 40::rat), (''MSFT'', 60)] \<union> fst ` set [(''NVDA'', 3::int)]"
proof -
  let ?out = "[\<lparr>c_idx = ''MSFT'', c_Shares = 0, c_Price = 0, c_Value = 0, c_Weight_pct = Fin 0,
        c_Nasdaq100_Weight = 60, c_Difference = Fin (- 60)\<rparr>,
      \<lparr>c_idx = ''AAPL'', c_Shares = 0, c_Price = 0, c_Value = 0, c_Weight_pct = Fin 0,
        c_Nasdaq100_Weight = 40, c_Difference = Fin (- 40)\<rparr>,
      \<lparr>c_idx = ''NVDA'', c_Shares = 3, c_Price = 50, c_Value = 150, c_Weight_pct = Fin 100,
        c_Nasdaq100_Weight = 0, c_Difference = Fin 100\<rparr>]"
  have h1: "distinct (map fst [(''AAPL'', 40::rat), (''MSFT'', 60)])" by simp
  have h2: "fst ` set [(''NVDA'', 50::rat)] \<subseteq>
     fst ` set [(''NVDA'', 3::int)] \<union> fst ` set [(''AAPL'', 40::rat), (''MSFT'', 60)]" by simp
  have h3: "comparison (df [(''NVDA'', 3)] [(''NVDA'', 50)]) [(''AAPL'', 40), (''MSFT'', 60)] ?out"
    by (simp add: comparison_def sort_values_desc_def merge_outer_fillna_def nasdaq_cells_def
        merged_row_def loc_def df_def union_index_def series_sum_def fdiv_def Let_def)
  from comparison_union_complete[OF h1 h2 h3] h1 h2 h3 show ?thesis by blast
qed

text \<open>
  C5, as the script has it. The script raises nothing for a held ticker without a price:
  the ticker's price and value cells in \<open>df\<close> are NaN, the sum that divides the weights
  skips the cell, and \<^verbatim>\<open>fillna(0)\<close> after the merge turns the value and the weight of
  the ticker's comparison row into 0, next to its share count. A comparison frame is
  produced for every input.
\<close>

theorem held_ticker_without_price:
  assumes held: "map_of pf k = Some n"
    and noprice: "map_of prices k = None"
    and cmp: "comparison (df pf prices) nasdaq out"
  shows "(\<exists>out'. comparison (df pf prices) nasdaq out') \<and>
         (\<exists>r. loc (df pf prices) k = Some r \<and> Price r = None \<and> Value r = None) \<and>
         (\<exists>r\<in>set out. c_idx r = k) \<and>
         (\<forall>r\<in>set out. c_idx r = k \<longrightarrow>
            c_Shares r = of_int n \<and> c_Value r = 0 \<and> c_Weight_pct r = Fin 0)"
proof (intro conjI ballI impI)
  show "\<exists>out'. comparison (df pf prices) nasdaq out'"
    using comparison_exists by blast
  from loc_df_no_price[OF held noprice]
  obtain r0 where r0: "loc (df pf prices) k = Some r0" "Shares r0 = Some n"
    "Price r0 = None" "Value r0 = None" "Weight_pct r0 = NaN"
    by blast
  then show "\<exists>r. loc (df pf prices) k = Some r \<and> Price r = None \<and> Value r = None"
    by blast
  from held have "k \<in> fst ` set pf" by (metis map_of_eq_None_iff option.distinct(1))
  then have "k \<in> set (map idx (df pf prices)) \<union> fst ` set nasdaq"
    by (simp add: df_index set_union_index)
  from merge_has_row[OF this] show "\<exists>r\<in>set out. c_idx r = k"
    using comparison_set[OF cmp] by simp
  fix r assume r: "r \<in> set out" and rk: "c_idx r = k"
  from r cmp have "r \<in> set (merge_outer_fillna (df pf prices) nasdaq)"
    by (simp add: comparison_set)
  then obtain k' w where "r = merged_row (loc (df pf prices) k') k' w"
    by (rule merge_row_cases)
  with rk have "r = merged_row (loc (df pf prices) k) k w" by simp
  with r0 show "c_Shares r = of_int n" "c_Value r = 0" "c_Weight_pct r = Fin 0"
    by (simp_all add: merged_row_def Let_def)
qed

theorem held_ticker_without_price_witness:
  "map_of [(''AAPL'', 10::int), (''MSFT'', 5)] ''AAPL'' = Some 10 \<and>
   map_of [(''MSFT'', 200::rat)] ''AAPL'' = None \<and>
   comparison (df [(''AAPL'', 10), (''MSFT'', 5)] [(''MSFT'', 200)]) [(''MSFT'', 60)]
     [\<lparr>c_idx = ''MSFT'', c_Shares = 5, c_Price = 200, c_Value = 1000, c_Weight_pct = Fin 100,
        c_Nasdaq100_Weight = 60, c_Difference = Fin 40\<rparr>,
      \<lparr>c_idx = ''AAPL'', c_Shares = 10, c_Price = 0, c_Value = 0, c_Weight_pct = Fin 0,
        c_Nasdaq100_Weight = 0, c_Difference = Fin 0\<rparr>] \<and>
   (\<exists>r. loc (df [(''AAPL'', 10), (''MSFT'', 5)] [(''MSFT'', 200)]) ''AAPL'' = Some r \<and>
        Price r = None \<and> Value r = None)"
proof -
  have h1: "map_of [(''AAPL'', 10::int), (''MSFT'', 5)] ''AAPL'' = Some 10" by simp
  have h2: "map_of [(''MSFT'', 200::rat)] ''AAPL'' = None" by simp
  have h3: "comparison (df [(''AAPL'', 10), (''MSFT'', 5)] [(''MSFT'', 200)]) [(''MSFT'', 60)]
     [\<lparr>c_idx = ''MSFT'', c_Shares = 5, c_Price = 200, c_Value = 1000, c_Weight_pct = Fin 100,
        c_Nasdaq100_Weight = 60, c_Difference = Fin 40\<rparr>,
      \<lparr>c_idx = ''AAPL'', c_Shares = 10, c_Price = 0, c_Value = 0, c_Weight_pct = Fin 0,
        c_Nasdaq100_Weight = 0, c_Difference = Fin 0\<rparr>]"
    by (simp add: comparison_def sort_values_desc_def merge_outer_fillna_def nasdaq_cells_def
        merged_row_def loc_def df_def union_index_def series_sum_def fdiv_def Let_def)
  from held_ticker_without_price[OF h1 h2 h3] h1 h2 h3 show ?thesis by blast
qed

text \<open>
  The claim C5 at the specification's own example, holdings \<open>{AAPL: 10}\<close> and no price:
  the script goes on to a comparison frame whose AAPL row has value 0 and weight 0.
\<close>

theorem missing_price_no_error_counterexample:
  "comparison (df [(''AAPL'', 10)] []) []
     [\<lparr>c_idx = ''AAPL'', c_Shares = 10, c_Price = 0, c_Value = 0, c_Weight_pct = Fin 0,
        c_Nasdaq100_Weight = 0, c_Difference = Fin 0\<rparr>] \<and>
   total_usd (df [(''AAPL'', 10)] []) = 0"
  by (simp add: comparison_def sort_values_desc_def merge_outer_fillna_def nasdaq_cells_def
      merged_row_def loc_def df_def union_index_def series_sum_def total_usd_def Let_def)




section \<open>Claims about the suggested purchase\<close>





text \<open>
  C7, as the script has it. The share count is the purchase amount divided by the price of
  the chosen ticker. When the price series has a nonzero price for the ticker, that price
  divides. When the ticker is held and has no price, the NaN cell divides and the share
  count is NaN. When the ticker is neither held nor priced (it comes from the target table
  only), the price is fetched from the market-data service and divides. A missing price
  raises nothing of its own; whenever the run ends with a recommendation, its share count
  is this quotient for the recommended ticker.
\<close>

theorem shares_to_buy_price_source:
  "(\<forall>p. map_of prices k = Some p \<longrightarrow> p \<noteq> 0 \<longrightarrow>
        shares_to_buy (df pf prices) info k amount = Inr (Fin (amount / p))) \<and>
   (\<forall>n. map_of pf k = Some n \<longrightarrow> map_of prices k = None \<longrightarrow>
        shares_to_buy (df pf prices) info k amount = Inr NaN) \<and>
   (\<forall>q. k \<notin> fst ` set pf \<union> fst ` set prices \<longrightarrow> info k = Some q \<longrightarrow> q \<noteq> 0 \<longrightarrow>
        shares_to_buy (df pf prices) info k amount = Inr (Fin (amount / q))) \<and>
   (\<forall>t n g w. recommend (df pf prices) info rows amount = Inr (t, n, g, w) \<longrightarrow>
        shares_to_buy (df pf prices) info t amount = Inr n)"
proof (intro conjI allI impI)
  fix p assume p: "map_of prices k = Some p" "p \<noteq> 0"
  then have "k \<in> fst ` set prices" by (metis map_of_eq_None_iff option.distinct(1))
  with p show "shares_to_buy (df pf prices) info k amount = Inr (Fin (amount / p))"
    by (simp add: shares_to_buy_def loc_df fdiv_def)
next
  fix n assume "map_of pf k = Some n" "map_of prices k = None"
  from loc_df_no_price[OF this]
  show "shares_to_buy (df pf prices) info k amount = Inr NaN"
    by (auto simp: shares_to_buy_def)
next
  fix q assume "k \<notin> fst ` set pf \<union> fst ` set prices" "info k = Some q" "q \<noteq> 0"
  then show "shares_to_buy (df pf prices) info k amount = Inr (Fin (amount / q))"
    by (simp add: shares_to_buy_def loc_df)
next
  fix t n g w assume "recommend (df pf prices) info rows amount = Inr (t, n, g, w)"
  then show "shares_to_buy (df pf prices) info t amount = Inr n"
    by (auto simp: recommend_def split: sum.splits)
qed

theorem shares_to_buy_price_source_witness:
  "map_of [(''MSFT'', 200::rat)] ''MSFT'' = Some 200 \<and> (200::rat) \<noteq> 0 \<and>
   shares_to_buy (df [(''MSFT'', 5), (''AAPL'', 10)] [(''MSFT'', 200)]) (\<lambda>t. Some 50) ''MSFT'' 1250
     = Inr (Fin (1250 / 200)) \<and>
   map_of [(''MSFT'', 5::int), (''AAPL'', 10)] ''AAPL'' = Some 10 \<and>
   map_of [(''MSFT'', 200::rat)] ''AAPL'' = None \<and>
   shares_to_buy (df [(''MSFT'', 5), (''AAPL'', 10)] [(''MSFT'', 200)]) (\<lambda>t. Some 50) ''AAPL'' 1250
     = Inr NaN \<and>
   ''NVDA'' \<notin> fst ` set [(''MSFT'', 5::int), (''AAPL'', 10)] \<union> fst ` set [(''MSFT'', 200::rat)] \<and>
   shares_to_buy (df [(''MSFT'', 5), (''AAPL'', 10)] [(''MSFT'', 200)]) (\<lambda>t. Some 50) ''NVDA'' 1250
     = Inr (Fin (1250 / 50))"
proof -
  have h1: "map_of [(''MSFT'', 200::rat)] ''MSFT'' = Some 200" "(200::rat) \<noteq> 0" by simp_all
  have h2: "map_of [(''MSFT'', 5::int), (''AAPL'', 10)] ''AAPL'' = Some 10"
    "map_of [(''MSFT'', 200::rat)] ''AAPL'' = None" by simp_all
  have h3: "''NVDA'' \<notin> fst ` set [(''MSFT'', 5::int), (''AAPL'', 10)] \<union> fst ` set [(''MSFT'', 200::rat)]"
    "(\<lambda>t::ticker. Some (50::rat)) ''NVDA'' = Some 50" "(50::rat) \<noteq> 0" by simp_all
  note a = shares_to_buy_price_source
    [of "[(''MSFT'', 200)]" "''MSFT''" "[(''MSFT'', 5), (''AAPL'', 10)]" "\<lambda>t. Some 50" 1250 "[]"]
  note b = shares_to_buy_price_source
    [of "[(''MSFT'', 200)]" "''AAPL''" "[(''MSFT'', 5), (''AAPL'', 10)]" "\<lambda>t. Some 50" 1250 "[]"]
  note c = shares_to_buy_price_source
    [of "[(''MSFT'', 200)]" "''NVDA''" "[(''MSFT'', 5), (''AAPL'', 10)]" "\<lambda>t. Some 50" 1250 "[]"]
  from a h1 have 1: "shares_to_buy (df [(''MSFT'', 5), (''AAPL'', 10)] [(''MSFT'', 200)])
      (\<lambda>t. Some 50) ''MSFT'' 1250 = Inr (Fin (1250 / 200))" by blast
  from b h2 have 2: "shares_to_buy (df [(''MSFT'', 5), (''AAPL'', 10)] [(''MSFT'', 200)])
      (\<lambda>t. Some 50) ''AAPL'' 1250 = Inr NaN" by blast
  from c h3 have 3: "shares_to_buy (df [(''MSFT'', 5), (''AAPL'', 10)] [(''MSFT'', 200)])
      (\<lambda>t. Some 50) ''NVDA'' 1250 = Inr (Fin (1250 / 50))" by blast
  from 1 2 3 h1 h2 h3 show ?thesis by blast
qed

text \<open>
  The claim C7 on one target MSFT, no holding and no price: MSFT is chosen, the price
  series has no entry for it, and the run ends with 6.25 shares computed from the price 200
  that the market-data service returns, not with an error.
\<close>

theorem price_from_other_source_counterexample:
  "comparison (df [] []) [(''MSFT'', 60)]
     [\<lparr>c_idx = ''MSFT'', c_Shares = 0, c_Price = 0, c_Value = 0, c_Weight_pct = Fin 0,
        c_Nasdaq100_Weight = 60, c_Difference = Fin (- 60)\<rparr>] \<and>
   map_of ([] :: (ticker \<times> rat) list) ''MSFT'' = None \<and>
   recommend (df [] []) (\<lambda>t. Some 200)
     [\<lparr>c_idx = ''MSFT'', c_Shares = 0, c_Price = 0, c_Value = 0, c_Weight_pct = Fin 0,
        c_Nasdaq100_Weight = 60, c_Difference = Fin (- 60)\<rparr>] purchase_amount
     = Inr (''MSFT'', Fin (25 / 4), Fin 40, 60)"
  by (simp add: comparison_def sort_values_desc_def merge_outer_fillna_def nasdaq_cells_def
      merged_row_def loc_def df_def union_index_def series_sum_def Let_def
      recommend_def best_suggestion_def suggestions_def sort_by_gap_def shares_to_buy_def
      total_usd_def fdiv_def purchase_amount_def)

section \<open>Claims about the weights\<close>



section \<open>Claims about the display order\<close>




section \<open>The end-to-end scenario\<close>

text \<open>
  C1. Targets AAPL 40 and MSFT 60, holdings of 10 AAPL and 5 \<lparr>c_idx = ''MSFT'', c_Shares = 5, c_Price = 200, c_Value = 1000, c_Weight_pct = Fin 50,
        c_Nasdaq100_Weight = 60, c_Difference = Fin (- 10)\<rparr>, prices 100 and 200:
  the comparison frame is the MSFT row then the AAPL row, each with value 1000 and actual
  weight 50, the differences are \<open>-10\<close> for MSFT and \<open>+10\<close> for AAPL, and the total is
  2000. With the purchase amount 1250 the recommendation is \<lparr>c_idx = ''MSFT'', c_Shares = 5, c_Price = 200, c_Value = 1000, c_Weight_pct = Fin 50,
        c_Nasdaq100_Weight = 60, c_Difference = Fin (- 10)\<rparr>, \<open>1250 / 200 = 6.25\<close>
  shares, target weight 60 and projected gap \<open>120/13\<close>, which is 9.23 to two decimals.
\<close>

theorem end_to_end_scenario:
  assumes "comparison (df [(''AAPL'', 10), (''MSFT'', 5)] [(''AAPL'', 100), (''MSFT'', 200)])
             [(''AAPL'', 40), (''MSFT'', 60)] out"
  shows "out = [\<lparr>c_idx = ''MSFT'', c_Shares = 5, c_Price = 200, c_Value = 1000, c_Weight_pct = Fin 50,
        c_Nasdaq100_Weight = 60, c_Difference = Fin (- 10)\<rparr>,
      \<lparr>c_idx = ''AAPL'', c_Shares = 10, c_Price = 100, c_Value = 1000, c_Weight_pct = Fin 50,
        c_Nasdaq100_Weight = 40, c_Difference = Fin 10\<rparr>] \<and>
    total_usd (df [(''AAPL'', 10), (''MSFT'', 5)] [(''AAPL'', 100), (''MSFT'', 200)]) = 2000 \<and>
    purchase_amount = 1250 \<and>
    recommend (df [(''AAPL'', 10), (''MSFT'', 5)] [(''AAPL'', 100), (''MSFT'', 200)]) info out purchase_amount
      = Inr (''MSFT'', Fin (25 / 4), Fin (120 / 13), 60) \<and>
    (25 / 4 :: rat) = 1250 / 200 \<and>
    \<bar>(120 / 13 :: rat) - 923 / 100\<bar> < 1 / 200"
proof -
  have m: "merge_outer_fillna (df [(''AAPL'', 10), (''MSFT'', 5)] [(''AAPL'', 100), (''MSFT'', 200)])
      [(''AAPL'', 40), (''MSFT'', 60)] = [\<lparr>c_idx = ''AAPL'', c_Shares = 10, c_Price = 100, c_Value = 1000, c_Weight_pct = Fin 50,
        c_Nasdaq100_Weight = 40, c_Difference = Fin 10\<rparr>,
      \<lparr>c_idx = ''MSFT'', c_Shares = 5, c_Price = 200, c_Value = 1000, c_Weight_pct = Fin 50,
        c_Nasdaq100_Weight = 60, c_Difference = Fin (- 10)\<rparr>]"
    by (simp add: merge_outer_fillna_def nasdaq_cells_def
        merged_row_def loc_def df_def union_index_def series_sum_def fdiv_def Let_def)
  from assms have ms: "mset out = mset [\<lparr>c_idx = ''AAPL'', c_Shares = 10, c_Price = 100, c_Value = 1000, c_Weight_pct = Fin 50,
        c_Nasdaq100_Weight = 40, c_Difference = Fin 10\<rparr>,
      \<lparr>c_idx = ''MSFT'', c_Shares = 5, c_Price = 200, c_Value = 1000, c_Weight_pct = Fin 50,
        c_Nasdaq100_Weight = 60, c_Difference = Fin (- 10)\<rparr>]"
    and srt: "sorted_wrt (\<lambda>a b. c_Nasdaq100_Weight a \<ge> c_Nasdaq100_Weight b) out"
    unfolding comparison_def sort_values_desc_def m by blast+
  from mset_two_cases[OF ms] srt have out: "out = [\<lparr>c_idx = ''MSFT'', c_Shares = 5, c_Price = 200, c_Value = 1000, c_Weight_pct = Fin 50,
        c_Nasdaq100_Weight = 60, c_Difference = Fin (- 10)\<rparr>,
      \<lparr>c_idx = ''AAPL'', c_Shares = 10, c_Price = 100, c_Value = 1000, c_Weight_pct = Fin 50,
        c_Nasdaq100_Weight = 40, c_Difference = Fin 10\<rparr>]"
    by auto
  have tot: "total_usd (df [(''AAPL'', 10), (''MSFT'', 5)] [(''AAPL'', 100), (''MSFT'', 200)]) = 2000"
    by (simp add: total_usd_df union_index_def series_sum_def)
  have rec: "recommend (df [(''AAPL'', 10), (''MSFT'', 5)] [(''AAPL'', 100), (''MSFT'', 200)]) info [\<lparr>c_idx = ''MSFT'', c_Shares = 5, c_Price = 200, c_Value = 1000, c_Weight_pct = Fin 50,
        c_Nasdaq100_Weight = 60, c_Difference = Fin (- 10)\<rparr>,
      \<lparr>c_idx = ''AAPL'', c_Shares = 10, c_Price = 100, c_Value = 1000, c_Weight_pct = Fin 50,
        c_Nasdaq100_Weight = 40, c_Difference = Fin 10\<rparr>] purchase_amount
      = Inr (''MSFT'', Fin (25 / 4), Fin (120 / 13), 60)"
    by (simp add: recommend_def best_suggestion_def suggestions_def sort_by_gap_def
        shares_to_buy_def loc_def total_usd_def df_def union_index_def series_sum_def
        fdiv_def purchase_amount_def Let_def)
  show ?thesis unfolding out using tot rec by (simp add: purchase_amount_def)
qed

theorem end_to_end_scenario_witness:
  "comparison (df [(''AAPL'', 10), (''MSFT'', 5)] [(''AAPL'', 100), (''MSFT'', 200)])
     [(''AAPL'', 40), (''MSFT'', 60)] [\<lparr>c_idx = ''MSFT'', c_Shares = 5, c_Price = 200, c_Value = 1000, c_Weight_pct = Fin 50,
        c_Nasdaq100_Weight = 60, c_Difference = Fin (- 10)\<rparr>,
      \<lparr>c_idx = ''AAPL'', c_Shares = 10, c_Price = 100, c_Value = 1000, c_Weight_pct = Fin 50,
        c_Nasdaq100_Weight = 40, c_Difference = Fin 10\<rparr>] \<and>
   recommend (df [(''AAPL'', 10), (''MSFT'', 5)] [(''AAPL'', 100), (''MSFT'', 200)]) (\<lambda>t. None) [\<lparr>c_idx = ''MSFT'', c_Shares = 5, c_Price = 200, c_Value = 1000, c_Weight_pct = Fin 50,
        c_Nasdaq100_Weight = 60, c_Difference = Fin (- 10)\<rparr>,
      \<lparr>c_idx = ''AAPL'', c_Shares = 10, c_Price = 100, c_Value = 1000, c_Weight_pct = Fin 50,
        c_Nasdaq100_Weight = 40, c_Difference = Fin 10\<rparr>] purchase_amount
      = Inr (''MSFT'', Fin (25 / 4), Fin (120 / 13), 60)"
proof -
  have h: "comparison (df [(''AAPL'', 10), (''MSFT'', 5)] [(''AAPL'', 100), (''MSFT'', 200)])
     [(''AAPL'', 40), (''MSFT'', 60)] [\<lparr>c_idx = ''MSFT'', c_Shares = 5, c_Price = 200, c_Value = 1000, c_Weight_pct = Fin 50,
        c_Nasdaq100_Weight = 60, c_Difference = Fin (- 10)\<rparr>,
      \<lparr>c_idx = ''AAPL'', c_Shares = 10, c_Price = 100, c_Value = 1000, c_Weight_pct = Fin 50,
        c_Nasdaq100_Weight = 40, c_Difference = Fin 10\<rparr>]"
    by (simp add: comparison_def sort_values_desc_def merge_outer_fillna_def nasdaq_cells_def
        merged_row_def loc_def df_def union_index_def series_sum_def fdiv_def Let_def)
  from end_to_end_scenario[OF h, of "\<lambda>t. None"] h show ?thesis by simp
qed

end
